theory Spec2Isabelle
  imports Complex_Main
begin

section \<open>The outside world\<close>

text \<open>
  The script \<^verbatim>\<open>tutorials/GC_algorithm_API.py\<close> talks to a remote service through a
  \<^verbatim>\<open>gcapi.Client\<close>, sleeps, prints and writes one file. Every such effect is an
  event; the world is the list of events so far together with the number of client calls
  made so far.
\<close>

datatype request =
    GetAlgorithms string
  | UploadCases "string list" string
  | SessionDetail string
  | GetUrl string
  | JobsPage string string

datatype event =
    Sleep rat
  | Print string
  | Call request
  | Mkdir string
  | OpenWb string
  | WriteBytes string string

record world =
  clock :: nat
  trace :: "event list"

definition emit :: "event \<Rightarrow> world \<Rightarrow> world" where
  "emit e w = w\<lparr>trace := trace w @ [e]\<rparr>"

text \<open>\<^verbatim>\<open>time.sleep(d)\<close> and \<^verbatim>\<open>print(s)\<close>.\<close>

definition time_sleep :: "rat \<Rightarrow> world \<Rightarrow> world" where
  "time_sleep d w = emit (Sleep d) w"

definition print :: "string \<Rightarrow> world \<Rightarrow> world" where
  "print s w = emit (Print s) w"

text \<open>The exceptions the script raises or lets through.\<close>

datatype error =
    ValueError string
  | RuntimeError string
  | TimeoutError
  | IOError

text \<open>
  A call of the client either returns a value or raises \<^verbatim>\<open>IOError\<close>, the one
  exception of the client that the script handles.
\<close>

datatype 'a fetched = Raises_IOError | Returns 'a

section \<open>ThrottledRetries\<close>

record ThrottledRetries =
  attempts :: int
  interval :: int

definition ThrottledRetries_init :: "int \<Rightarrow> int \<Rightarrow> ThrottledRetries" where
  "ThrottledRetries_init a i = \<lparr>attempts = a, interval = i\<rparr>"

text \<open>
  The argument of the sleep before index \<open>n\<close>:
  \<^verbatim>\<open>min(self.interval * 1.5 ** n, 300)\<close>, computed on exact rationals.
\<close>

definition backoff :: "ThrottledRetries \<Rightarrow> nat \<Rightarrow> rat" where
  "backoff self n = min (of_int (interval self) * (3 / 2) ^ n) 300"

text \<open>
  \<^verbatim>\<open>__iter__\<close> is a generator function: every call makes a new generator object,
  whose frame holds \<^verbatim>\<open>self\<close> and the iterator over \<^verbatim>\<open>range(self.attempts)\<close>.
  Nothing is written to \<^verbatim>\<open>self\<close>.
\<close>

record retry_generator =
  gen_self :: ThrottledRetries
  gen_range :: "nat list"

definition iter_retries :: "ThrottledRetries \<Rightarrow> retry_generator" where
  "iter_retries self = \<lparr>gen_self = self, gen_range = [0..<nat (attempts self)]\<rparr>"

text \<open>
  \<^verbatim>\<open>next(g)\<close>: with the range used up the generator returns (\<open>None\<close>, which ends a
  \<^verbatim>\<open>for\<close> loop); otherwise it sleeps when \<open>n > 0\<close> and then yields \<open>n\<close>.
\<close>

definition next_retry ::
  "retry_generator \<Rightarrow> world \<Rightarrow> (nat \<times> retry_generator) option \<times> world" where
  "next_retry g w =
     (case gen_range g of
        [] \<Rightarrow> (None, w)
      | n # ns \<Rightarrow>
          (Some (n, g\<lparr>gen_range := ns\<rparr>),
           if 0 < n then time_sleep (backoff (gen_self g) n) w else w))"

lemma next_retry_shorter:
  "next_retry g w = (Some (n, g'), w') \<Longrightarrow> length (gen_range g') < length (gen_range g)"
  by (auto simp: next_retry_def split: list.splits)

text \<open>
  A loop \<^verbatim>\<open>for n in retries: ...\<close> with an empty body that runs to the end: the
  indices it receives, each with the world at the moment it is yielded, and the world when
  the generator is used up.
\<close>

function consume :: "retry_generator \<Rightarrow> world \<Rightarrow> (nat \<times> world) list \<times> world" where
  "consume g w =
     (case next_retry g w of
        (None, w') \<Rightarrow> ([], w')
      | (Some (n, g'), w') \<Rightarrow>
          (case consume g' w' of (ys, w'') \<Rightarrow> ((n, w') # ys, w'')))"
  by pat_completeness auto
termination
  by (relation "measure (\<lambda>(g, w). length (gen_range g))")
     (auto dest: next_retry_shorter [OF sym])

declare consume.simps [simp del]

section \<open>The client\<close>

text \<open>
  What the script reads from the client's answers. A JSON object is a record of the
  keys the script reads; \<^verbatim>\<open>null\<close> is \<open>None\<close>, and so is the one key whose absence the
  script handles, \<^verbatim>\<open>results\<close>.
\<close>

record algorithm_entry =
  alg_pk :: string
  average_duration :: "rat option"

record algorithms_response =
  results :: "algorithm_entry list option"

record upload_session =
  session_pk :: string

record session_details =
  sd_status :: string
  image_set :: "string list"

record image_file =
  image_type :: string
  file_url :: string

record image_details =
  image_pk :: string
  files :: "image_file list"

record job_output =
  output_image :: "string option"

record job_details =
  job_status :: string
  outputs :: "job_output list"

text \<open>
  The remote service is a script of answers: what a call returns depends on the request
  and on how many calls were made before it. \<^verbatim>\<open>client(url=...)\<close> is read in two ways
  by the script, as the details of an image and as a response with \<^verbatim>\<open>.content\<close>.
\<close>

record client =
  get_algorithms :: "nat \<Rightarrow> string \<Rightarrow> algorithms_response fetched"
  upload_cases :: "nat \<Rightarrow> string list \<Rightarrow> string \<Rightarrow> upload_session fetched"
  session_detail :: "nat \<Rightarrow> string \<Rightarrow> session_details fetched"
  get_image :: "nat \<Rightarrow> string \<Rightarrow> image_details fetched"
  jobs_page :: "nat \<Rightarrow> string \<Rightarrow> string \<Rightarrow> job_details list fetched"
  get_content :: "nat \<Rightarrow> string \<Rightarrow> string fetched"

definition call :: "request \<Rightarrow> (nat \<Rightarrow> 'a fetched) \<Rightarrow> world \<Rightarrow> 'a fetched \<times> world" where
  "call rq answer w =
     (answer (clock w), w\<lparr>clock := Suc (clock w), trace := trace w @ [Call rq]\<rparr>)"

section \<open>pathlib\<close>

text \<open>
  \<^verbatim>\<open>Path(filename).suffix\<close> for a POSIX path: the name is the last component that is
  neither empty nor \<^verbatim>\<open>.\<close>; the suffix starts at the last dot of the name, unless that
  dot is the first or the last character.
\<close>

fun split_path :: "string \<Rightarrow> string list" where
  "split_path [] = [[]]"
| "split_path (c # cs) =
     (if c = CHR ''/'' then [] # split_path cs
      else (case split_path cs of [] \<Rightarrow> [[c]] | p # ps \<Rightarrow> (c # p) # ps))"

definition path_name :: "string \<Rightarrow> string" where
  "path_name p =
     (case rev (filter (\<lambda>c. c \<noteq> [] \<and> c \<noteq> ''.'') (split_path p)) of
        [] \<Rightarrow> []
      | c # _ \<Rightarrow> c)"

definition rfind_dot :: "string \<Rightarrow> nat option" where
  "rfind_dot s =
     (if CHR ''.'' \<in> set s
      then Some (length s - Suc (length (takeWhile (\<lambda>c. c \<noteq> CHR ''.'') (rev s))))
      else None)"

definition path_suffix :: "string \<Rightarrow> string" where
  "path_suffix p =
     (let name = path_name p in
      case rfind_dot name of
        None \<Rightarrow> []
      | Some i \<Rightarrow> if 0 < i \<and> Suc i < length name then drop i name else [])"

section \<open>GrandChallengeAlgorithm\<close>

record GrandChallengeAlgorithm =
  algorithm :: string
  retries :: ThrottledRetries
  client :: client
  algorithm_uuid :: string
  headstart :: int



definition quoted :: "string \<Rightarrow> string" where
  "quoted s = [CHR 0x22] @ s @ [CHR 0x22]"


subsection \<open>The loop bodies of run\<close>

text \<open>How the body of a \<^verbatim>\<open>for\<close> loop ends: it goes on, breaks or raises.\<close>

datatype 'a flow = Continue | Break 'a | Raise error

text \<open>The body of the first loop of \<^verbatim>\<open>run\<close>; \<open>Break\<close> carries \<^verbatim>\<open>image_uuid\<close>.\<close>

definition import_body ::
  "GrandChallengeAlgorithm \<Rightarrow> upload_session \<Rightarrow> world \<Rightarrow> string flow \<times> world" where
  "import_body self session w =
     (case call (SessionDetail (session_pk session))
             (\<lambda>t. session_detail (client self) t (session_pk session)) w of
        (Raises_IOError, w1) \<Rightarrow> (Continue, w1)
      | (Returns details, w1) \<Rightarrow>
          (let status = sd_status details in
           if status \<in> {''Failed'', ''Cancelled''}
           then (Raise (RuntimeError
                   (''Algorithm '' @ quoted (algorithm self) @ '' could not be started'')), w1)
           else if status = ''Succeeded''
           then (case image_set details of
                   [] \<Rightarrow>
                     (Raise (RuntimeError
                        ''Uploaded image could not be imported, not a valid image?''), w1)
                 | image_url # _ \<Rightarrow>
                     (case call (GetUrl image_url)
                             (\<lambda>t. get_image (client self) t image_url) w1 of
                        (Raises_IOError, w2) \<Rightarrow> (Continue, w2)
                      | (Returns image_details, w2) \<Rightarrow> (Break (image_pk image_details), w2)))
           else (Continue, w1)))"

text \<open>
  \<^verbatim>\<open>for _ in self.retries: ... else: raise TimeoutError\<close>, from a generator on.
\<close>

function import_loop ::
  "GrandChallengeAlgorithm \<Rightarrow> upload_session \<Rightarrow> retry_generator \<Rightarrow> world \<Rightarrow>
     (error + string) \<times> world" where
  "import_loop self session g w =
     (case next_retry g w of
        (None, w0) \<Rightarrow> (Inl TimeoutError, w0)
      | (Some (_, g'), w0) \<Rightarrow>
          (case import_body self session w0 of
             (Continue, w1) \<Rightarrow> import_loop self session g' w1
           | (Break image_uuid, w1) \<Rightarrow> (Inr image_uuid, w1)
           | (Raise e, w1) \<Rightarrow> (Inl e, w1)))"
  by pat_completeness auto
termination
  by (relation "measure (\<lambda>(self, session, g, w). length (gen_range g))")
     (auto dest: next_retry_shorter [OF sym])

declare import_loop.simps [simp del]

subsection \<open>Downloading the result\<close>

text \<open>
  The inner loop of \<^verbatim>\<open>_download_results\<close> over the files of one image: \<open>True\<close> when it
  ended in the \<^verbatim>\<open>return\<close>, \<open>False\<close> when it ran through. \<open>Mkdir\<close> stands for
  \<^verbatim>\<open>output_file.parent.mkdir(parents=True, exist_ok=True)\<close> and \<open>OpenWb\<close> for
  \<^verbatim>\<open>output_file.open("wb")\<close>, both recorded with the file name.
\<close>

fun save_mask ::
  "GrandChallengeAlgorithm \<Rightarrow> string \<Rightarrow> image_file list \<Rightarrow> world \<Rightarrow> (error + bool) \<times> world" where
  "save_mask self filename [] w = (Inr False, w)"
| "save_mask self filename (file # rest) w =
     (if image_type file \<noteq> ''MHD'' then save_mask self filename rest w
      else if path_suffix filename \<noteq> ''.mha''
      then (Inl (ValueError ''Output file needs to have .mha extension''), w)
      else (let w1 = emit (Mkdir filename) w;
                w2 = emit (OpenWb filename) w1
            in case call (GetUrl (file_url file))
                      (\<lambda>t. get_content (client self) t (file_url file)) w2 of
                 (Raises_IOError, w3) \<Rightarrow> (Inl IOError, w3)
               | (Returns content, w3) \<Rightarrow> (Inr True, emit (WriteBytes filename content) w3)))"

fun download_results ::
  "GrandChallengeAlgorithm \<Rightarrow> job_output list \<Rightarrow> string \<Rightarrow> world \<Rightarrow> (error + unit) \<times> world" where
  "download_results self [] filename w = (Inr (), w)"
| "download_results self (output # rest) filename w =
     (case output_image output of
        None \<Rightarrow> download_results self rest filename w
      | Some url \<Rightarrow>
          (case call (GetUrl url) (\<lambda>t. get_image (client self) t url) w of
             (Raises_IOError, w1) \<Rightarrow> (Inl IOError, w1)
           | (Returns image_details, w1) \<Rightarrow>
               (case save_mask self filename (files image_details) w1 of
                  (Inl e, w2) \<Rightarrow> (Inl e, w2)
                | (Inr True, w2) \<Rightarrow> (Inr (), w2)
                | (Inr False, w2) \<Rightarrow> download_results self rest filename w2)))"

subsection \<open>The second loop and run\<close>

definition job_body ::
  "GrandChallengeAlgorithm \<Rightarrow> string \<Rightarrow> string \<Rightarrow> world \<Rightarrow> unit flow \<times> world" where
  "job_body self image_uuid output_file w =
     (case call (JobsPage (algorithm_uuid self) image_uuid)
             (\<lambda>t. jobs_page (client self) t (algorithm_uuid self) image_uuid) w of
        (Raises_IOError, w1) \<Rightarrow> (Continue, w1)
      | (Returns [], w1) \<Rightarrow> (Continue, w1)
      | (Returns (algorithm_job_details # _), w1) \<Rightarrow>
          (let status = job_status algorithm_job_details in
           if status \<in> {''Failed'', ''Cancelled''}
           then (Raise (RuntimeError (''Algorithm '' @ quoted (algorithm self) @ '' failed'')), w1)
           else if status = ''Succeeded''
           then (let w2 = print (''Downloading results of algorithm '' @ quoted (algorithm self)) w1
                 in case download_results self (outputs algorithm_job_details) output_file w2 of
                      (Inl e, w3) \<Rightarrow> (Raise e, w3)
                    | (Inr _, w3) \<Rightarrow> (Break (), w3))
           else (Continue, w1)))"

function job_loop ::
  "GrandChallengeAlgorithm \<Rightarrow> string \<Rightarrow> string \<Rightarrow> retry_generator \<Rightarrow> world \<Rightarrow>
     (error + unit) \<times> world" where
  "job_loop self image_uuid output_file g w =
     (case next_retry g w of
        (None, w0) \<Rightarrow> (Inl TimeoutError, w0)
      | (Some (_, g'), w0) \<Rightarrow>
          (case job_body self image_uuid output_file w0 of
             (Continue, w1) \<Rightarrow> job_loop self image_uuid output_file g' w1
           | (Break _, w1) \<Rightarrow> (Inr (), w1)
           | (Raise e, w1) \<Rightarrow> (Inl e, w1)))"
  by pat_completeness auto
termination
  by (relation "measure (\<lambda>(self, image_uuid, output_file, g, w). length (gen_range g))")
     (auto dest: next_retry_shorter [OF sym])

declare job_loop.simps [simp del]

definition run ::
  "GrandChallengeAlgorithm \<Rightarrow> string list \<Rightarrow> string \<Rightarrow> world \<Rightarrow> (error + unit) \<times> world" where
  "run self input_files output_file w =
     (let w1 = print (''Uploading to grand-challenge.org to run '' @ quoted (algorithm self)) w
      in case call (UploadCases input_files (algorithm self))
                (\<lambda>t. upload_cases (client self) t input_files (algorithm self)) w1 of
           (Raises_IOError, w2) \<Rightarrow> (Inl IOError, w2)
         | (Returns session, w2) \<Rightarrow>
             (let w3 = print (''Waiting for image import to finish for algorithm '' @
                              quoted (algorithm self)) w2;
                  w4 = time_sleep 30 w3
              in case import_loop self session (iter_retries (retries self)) w4 of
                   (Inl e, w5) \<Rightarrow> (Inl e, w5)
                 | (Inr image_uuid, w5) \<Rightarrow>
                     (let w6 = print (''Waiting for results of algorithm '' @
                                      quoted (algorithm self)) w5;
                          w7 = time_sleep (of_int (headstart self)) w6
                      in job_loop self image_uuid output_file (iter_retries (retries self)) w7)))"

section \<open>Vocabulary of the properties\<close>

text \<open>
  A poll is pending when it gives the loop no reason to stop: the call raised
  \<^verbatim>\<open>IOError\<close>, the page of jobs was empty, or the status is none of the three the
  script looks for.
\<close>

definition pending_import :: "client \<Rightarrow> nat \<Rightarrow> string \<Rightarrow> bool" where
  "pending_import c t pk =
     (case session_detail c t pk of
        Raises_IOError \<Rightarrow> True
      | Returns d \<Rightarrow> sd_status d \<notin> {''Failed'', ''Cancelled'', ''Succeeded''})"

definition pending_job :: "client \<Rightarrow> nat \<Rightarrow> string \<Rightarrow> string \<Rightarrow> bool" where
  "pending_job c t alg img =
     (case jobs_page c t alg img of
        Raises_IOError \<Rightarrow> True
      | Returns [] \<Rightarrow> True
      | Returns (j # _) \<Rightarrow> job_status j \<notin> {''Failed'', ''Cancelled'', ''Succeeded''})"

text \<open>
  What polls for the indices \<open>ns\<close> leave in the trace when each makes the one call
  \<open>rq\<close>: the generator's sleep before every index but \<open>0\<close>, then the call.
\<close>

definition poll_trace :: "ThrottledRetries \<Rightarrow> request \<Rightarrow> nat list \<Rightarrow> event list" where
  "poll_trace p rq ns =
     concat (map (\<lambda>n. (if 0 < n then [Sleep (backoff p n)] else []) @ [Call rq]) ns)"

text \<open>The image references of a list of outputs, in order.\<close>

definition image_urls :: "job_output list \<Rightarrow> string list" where
  "image_urls os = List.map_filter output_image os"

text \<open>
  An output yields no mask when it has no image, or when the listing of its image is
  returned, whenever it is asked for, and has no file of type MHD.
\<close>

definition no_mask :: "client \<Rightarrow> job_output \<Rightarrow> bool" where
  "no_mask c out =
     (case output_image out of
        None \<Rightarrow> True
      | Some url \<Rightarrow>
          (\<forall>t. \<exists>d. get_image c t url = Returns d \<and>
                  list_all (\<lambda>f. image_type f \<noteq> ''MHD'') (files d)))"

text \<open>What the trace says was written, and which files were opened for writing.\<close>

fun written :: "event list \<Rightarrow> (string \<times> string) list" where
  "written [] = []"
| "written (WriteBytes f c # es) = (f, c) # written es"
| "written (e # es) = written es"

fun opened :: "event list \<Rightarrow> string list" where
  "opened [] = []"
| "opened (OpenWb f # es) = f # opened es"
| "opened (e # es) = opened es"

fun made_dirs :: "event list \<Rightarrow> string list" where
  "made_dirs [] = []"
| "made_dirs (Mkdir f # es) = f # made_dirs es"
| "made_dirs (e # es) = made_dirs es"

subsection \<open>Clients and drivers to run the definitions on\<close>

text \<open>A client that answers from tables, by the time of the call or by the URL.\<close>

definition at_time :: "(nat \<times> 'a) list \<Rightarrow> nat \<Rightarrow> 'a fetched" where
  "at_time tab t = (case map_of tab t of None \<Rightarrow> Raises_IOError | Some x \<Rightarrow> Returns x)"

definition at_url :: "(string \<times> 'a) list \<Rightarrow> string \<Rightarrow> 'a fetched" where
  "at_url tab u = (case map_of tab u of None \<Rightarrow> Raises_IOError | Some x \<Rightarrow> Returns x)"

definition table_client ::
  "(nat \<times> algorithms_response) list \<Rightarrow> (nat \<times> upload_session) list \<Rightarrow>
   (nat \<times> session_details) list \<Rightarrow> (nat \<times> job_details list) list \<Rightarrow>
   (string \<times> image_details) list \<Rightarrow> (string \<times> string) list \<Rightarrow> client" where
  "table_client algs ups sessions jobs images contents =
     \<lparr>get_algorithms = (\<lambda>t slug. at_time algs t),
      upload_cases = (\<lambda>t fs slug. at_time ups t),
      session_detail = (\<lambda>t pk. at_time sessions t),
      get_image = (\<lambda>t url. at_url images url),
      jobs_page = (\<lambda>t alg img. at_time jobs t),
      get_content = (\<lambda>t url. at_url contents url)\<rparr>"

definition driver_of :: "client \<Rightarrow> int \<Rightarrow> GrandChallengeAlgorithm" where
  "driver_of c n =
     \<lparr>algorithm = ''demo'', retries = ThrottledRetries_init n 15, client = c,
      algorithm_uuid = ''alg-1'', headstart = 30\<rparr>"

definition start :: world where
  "start = \<lparr>clock = 0, trace = []\<rparr>"

section \<open>The retry iterator\<close>

text \<open>
  A generator over the range from \<open>k\<close> on yields the indices \<open>k, ..., N - 1\<close>; when
  \<open>n\<close> is yielded, the sleeps for the indices from \<open>max 1 k\<close> up to \<open>n\<close> have
  been added to the trace, and nothing else.
\<close>

lemma consume_upt:
  "consume \<lparr>gen_self = p, gen_range = [k..<N]\<rparr> w =
     (map (\<lambda>n. (n, w\<lparr>trace := trace w @ map (\<lambda>j. Sleep (backoff p j)) [max 1 k..<Suc n]\<rparr>))
        [k..<N],
      w\<lparr>trace := trace w @ map (\<lambda>j. Sleep (backoff p j)) [max 1 k..<N]\<rparr>)"
proof (induction "N - k" arbitrary: k w)
  case 0
  then show ?case by (subst consume.simps) (simp add: next_retry_def)
next
  case (Suc d)
  let ?f = "\<lambda>j. Sleep (backoff p j)"
  define w' where "w' = (if 0 < k then time_sleep (backoff p k) w else w)"
  from Suc.hyps(2) have kN: "k < N" and d: "d = N - Suc k" by simp_all
  have up: "[k..<N] = k # [Suc k..<N]" using kN by (simp add: upt_conv_Cons)
  have step: "next_retry \<lparr>gen_self = p, gen_range = k # [Suc k..<N]\<rparr> w =
                (Some (k, \<lparr>gen_self = p, gen_range = [Suc k..<N]\<rparr>), w')"
    by (simp add: next_retry_def w'_def)
  have later: "w'\<lparr>trace := trace w' @ map ?f [Suc k..<m]\<rparr> =
               w\<lparr>trace := trace w @ map ?f [max 1 k..<m]\<rparr>"
    if "Suc k \<le> m" for m
  proof (cases "k = 0")
    case True
    then show ?thesis by (simp add: w'_def)
  next
    case False
    then have "[max 1 k..<m] = k # [Suc k..<m]"
      using that by (simp add: upt_conv_Cons max_def)
    with False show ?thesis by (simp add: w'_def time_sleep_def emit_def)
  qed
  have first: "w' = w\<lparr>trace := trace w @ map ?f [max 1 k..<Suc k]\<rparr>"
    by (cases "k = 0") (simp_all add: w'_def time_sleep_def emit_def max_def)
  have rest: "consume \<lparr>gen_self = p, gen_range = [Suc k..<N]\<rparr> w' =
     (map (\<lambda>n. (n, w'\<lparr>trace := trace w' @ map ?f [Suc k..<Suc n]\<rparr>)) [Suc k..<N],
      w'\<lparr>trace := trace w' @ map ?f [Suc k..<N]\<rparr>)"
    using Suc.hyps(1) [OF d, of w'] by simp
  have same: "map (\<lambda>n. (n, w'\<lparr>trace := trace w' @ map ?f [Suc k..<Suc n]\<rparr>)) [Suc k..<N] =
              map (\<lambda>n. (n, w\<lparr>trace := trace w @ map ?f [max 1 k..<Suc n]\<rparr>)) [Suc k..<N]"
    by (rule map_cong) (simp_all add: later del: upt_Suc)
  have "consume \<lparr>gen_self = p, gen_range = k # [Suc k..<N]\<rparr> w =
          ((k, w') #
             map (\<lambda>n. (n, w'\<lparr>trace := trace w' @ map ?f [Suc k..<Suc n]\<rparr>)) [Suc k..<N],
           w'\<lparr>trace := trace w' @ map ?f [Suc k..<N]\<rparr>)"
    by (subst consume.simps) (simp add: step rest del: upt_Suc)
  also have "\<dots> =
      ((k, w\<lparr>trace := trace w @ map ?f [max 1 k..<Suc k]\<rparr>) #
         map (\<lambda>n. (n, w\<lparr>trace := trace w @ map ?f [max 1 k..<Suc n]\<rparr>)) [Suc k..<N],
       w\<lparr>trace := trace w @ map ?f [max 1 k..<N]\<rparr>)"
    using later [of N] kN first same by simp
  finally show ?case by (simp add: up del: upt_Suc)
qed



section \<open>The first polling loop\<close>

lemma next_retry_Nil: "next_retry \<lparr>gen_self = p, gen_range = []\<rparr> w = (None, w)"
  by (simp add: next_retry_def)

lemma next_retry_Cons:
  "next_retry \<lparr>gen_self = p, gen_range = n # ns\<rparr> w =
     (Some (n, \<lparr>gen_self = p, gen_range = ns\<rparr>),
      if 0 < n then time_sleep (backoff p n) w else w)"
  by (simp add: next_retry_def)

lemma import_loop_Nil:
  "import_loop self s \<lparr>gen_self = p, gen_range = []\<rparr> w = (Inl TimeoutError, w)"
  by (subst import_loop.simps) (simp add: next_retry_Nil)

lemma import_loop_Cons:
  "import_loop self s \<lparr>gen_self = p, gen_range = n # ns\<rparr> w =
     (case import_body self s (if 0 < n then time_sleep (backoff p n) w else w) of
        (Continue, w1) \<Rightarrow> import_loop self s \<lparr>gen_self = p, gen_range = ns\<rparr> w1
      | (Break image_uuid, w1) \<Rightarrow> (Inr image_uuid, w1)
      | (Raise e, w1) \<Rightarrow> (Inl e, w1))"
  by (subst import_loop.simps) (simp add: next_retry_Cons)

lemma slept_clock: "clock (if 0 < n then time_sleep d w else w) = clock w"
  by (simp add: time_sleep_def emit_def)

lemma slept_trace:
  "trace (if 0 < n then time_sleep d w else w) = trace w @ (if 0 < n then [Sleep d] else [])"
  by (simp add: time_sleep_def emit_def)

lemma import_body_pending:
  assumes "pending_import (client self) (clock w) (session_pk s)"
  shows "import_body self s w =
           (Continue, w\<lparr>clock := Suc (clock w),
                         trace := trace w @ [Call (SessionDetail (session_pk s))]\<rparr>)"
  using assms
  by (auto simp: import_body_def pending_import_def call_def Let_def split: fetched.splits)

lemma poll_trace_Cons:
  "poll_trace p rq (n # ns) = (if 0 < n then [Sleep (backoff p n)] else []) @ [Call rq] @ poll_trace p rq ns"
  by (simp add: poll_trace_def)

lemma poll_trace_Nil: "poll_trace p rq [] = []"
  by (simp add: poll_trace_def)

lemma import_loop_pending:
  assumes "\<forall>i<j. pending_import (client self) (clock w + i) (session_pk s)" and "k + j \<le> N"
  shows "import_loop self s \<lparr>gen_self = p, gen_range = [k..<N]\<rparr> w =
         import_loop self s \<lparr>gen_self = p, gen_range = [k + j..<N]\<rparr>
           (w\<lparr>clock := clock w + j,
              trace := trace w @ poll_trace p (SessionDetail (session_pk s)) [k..<k + j]\<rparr>)"
  using assms
proof (induction j arbitrary: k w)
  case 0
  then show ?case by (simp add: poll_trace_Nil)
next
  case (Suc j)
  let ?rq = "SessionDetail (session_pk s)"
  let ?w0 = "if 0 < k then time_sleep (backoff p k) w else w"
  let ?w1 = "?w0\<lparr>clock := Suc (clock ?w0), trace := trace ?w0 @ [Call ?rq]\<rparr>"
  from Suc.prems have kN: "k < N" and le: "Suc k + j \<le> N" by simp_all
  have up: "[k..<N] = k # [Suc k..<N]" using kN by (simp add: upt_conv_Cons)
  have up': "[k..<k + Suc j] = k # [Suc k..<Suc k + j]" by (simp add: upt_conv_Cons)
  from Suc.prems(1) have "pending_import (client self) (clock w + 0) (session_pk s)" by blast
  then have now: "pending_import (client self) (clock ?w0) (session_pk s)"
    by (simp add: slept_clock)
  have later: "\<forall>i<j. pending_import (client self) (clock ?w1 + i) (session_pk s)"
  proof (intro allI impI)
    fix i assume "i < j"
    then have "Suc i < Suc j" by simp
    with Suc.prems(1) have "pending_import (client self) (clock w + Suc i) (session_pk s)"
      by blast
    then show "pending_import (client self) (clock ?w1 + i) (session_pk s)"
      by (simp add: slept_clock)
  qed
  have "import_loop self s \<lparr>gen_self = p, gen_range = [k..<N]\<rparr> w =
        import_loop self s \<lparr>gen_self = p, gen_range = [Suc k..<N]\<rparr> ?w1"
    by (simp only: up import_loop_Cons import_body_pending [OF now]) simp
  also have "\<dots> = import_loop self s \<lparr>gen_self = p, gen_range = [Suc k + j..<N]\<rparr>
           (?w1\<lparr>clock := clock ?w1 + j, trace := trace ?w1 @ poll_trace p ?rq [Suc k..<Suc k + j]\<rparr>)"
    by (rule Suc.IH [OF later le])
  also have "?w1\<lparr>clock := clock ?w1 + j, trace := trace ?w1 @ poll_trace p ?rq [Suc k..<Suc k + j]\<rparr> =
             w\<lparr>clock := clock w + Suc j, trace := trace w @ poll_trace p ?rq [k..<k + Suc j]\<rparr>"
    by (simp only: up' poll_trace_Cons) (simp add: time_sleep_def emit_def)
  finally show ?case by simp
qed


lemma import_body_no_image:
  assumes "session_detail (client self) (clock w) (session_pk s) = Returns d"
    and "sd_status d = ''Succeeded''" and "image_set d = []"
  shows "import_body self s w =
           (Raise (RuntimeError ''Uploaded image could not be imported, not a valid image?''),
            w\<lparr>clock := Suc (clock w), trace := trace w @ [Call (SessionDetail (session_pk s))]\<rparr>)"
  using assms by (simp add: import_body_def call_def Let_def)

lemma import_body_resolved:
  assumes "session_detail (client self) (clock w) (session_pk s) = Returns d"
    and "sd_status d = ''Succeeded''" and "image_set d = url # others"
    and "get_image (client self) (Suc (clock w)) url = Returns img"
  shows "import_body self s w =
           (Break (image_pk img),
            w\<lparr>clock := Suc (Suc (clock w)),
              trace := trace w @ [Call (SessionDetail (session_pk s)), Call (GetUrl url)]\<rparr>)"
  using assms by (simp add: import_body_def call_def Let_def)





section \<open>The second polling loop, and running out of attempts\<close>

lemma job_loop_Nil:
  "job_loop self img out \<lparr>gen_self = p, gen_range = []\<rparr> w = (Inl TimeoutError, w)"
  by (subst job_loop.simps) (simp add: next_retry_Nil)

lemma job_loop_Cons:
  "job_loop self img out \<lparr>gen_self = p, gen_range = n # ns\<rparr> w =
     (case job_body self img out (if 0 < n then time_sleep (backoff p n) w else w) of
        (Continue, w1) \<Rightarrow> job_loop self img out \<lparr>gen_self = p, gen_range = ns\<rparr> w1
      | (Break u, w1) \<Rightarrow> (Inr (), w1)
      | (Raise e, w1) \<Rightarrow> (Inl e, w1))"
  by (subst job_loop.simps) (simp add: next_retry_Cons)

lemma job_body_pending:
  assumes "pending_job (client self) (clock w) (algorithm_uuid self) img"
  shows "job_body self img out w =
           (Continue, w\<lparr>clock := Suc (clock w),
                         trace := trace w @ [Call (JobsPage (algorithm_uuid self) img)]\<rparr>)"
  using assms
  by (auto simp: job_body_def pending_job_def call_def Let_def split: fetched.splits list.splits)

lemma job_loop_pending:
  assumes "\<forall>i<j. pending_job (client self) (clock w + i) (algorithm_uuid self) img"
    and "k + j \<le> N"
  shows "job_loop self img out \<lparr>gen_self = p, gen_range = [k..<N]\<rparr> w =
         job_loop self img out \<lparr>gen_self = p, gen_range = [k + j..<N]\<rparr>
           (w\<lparr>clock := clock w + j,
              trace := trace w @ poll_trace p (JobsPage (algorithm_uuid self) img) [k..<k + j]\<rparr>)"
  using assms
proof (induction j arbitrary: k w)
  case 0
  then show ?case by (simp add: poll_trace_Nil)
next
  case (Suc j)
  let ?rq = "JobsPage (algorithm_uuid self) img"
  let ?w0 = "if 0 < k then time_sleep (backoff p k) w else w"
  let ?w1 = "?w0\<lparr>clock := Suc (clock ?w0), trace := trace ?w0 @ [Call ?rq]\<rparr>"
  from Suc.prems have kN: "k < N" and le: "Suc k + j \<le> N" by simp_all
  have up: "[k..<N] = k # [Suc k..<N]" using kN by (simp add: upt_conv_Cons)
  have up': "[k..<k + Suc j] = k # [Suc k..<Suc k + j]" by (simp add: upt_conv_Cons)
  from Suc.prems(1) have "pending_job (client self) (clock w + 0) (algorithm_uuid self) img"
    by blast
  then have now: "pending_job (client self) (clock ?w0) (algorithm_uuid self) img"
    by (simp add: slept_clock)
  have later: "\<forall>i<j. pending_job (client self) (clock ?w1 + i) (algorithm_uuid self) img"
  proof (intro allI impI)
    fix i assume "i < j"
    then have "Suc i < Suc j" by simp
    with Suc.prems(1)
    have "pending_job (client self) (clock w + Suc i) (algorithm_uuid self) img" by blast
    then show "pending_job (client self) (clock ?w1 + i) (algorithm_uuid self) img"
      by (simp add: slept_clock)
  qed
  have "job_loop self img out \<lparr>gen_self = p, gen_range = [k..<N]\<rparr> w =
        job_loop self img out \<lparr>gen_self = p, gen_range = [Suc k..<N]\<rparr> ?w1"
    by (simp only: up job_loop_Cons job_body_pending [OF now]) simp
  also have "\<dots> = job_loop self img out \<lparr>gen_self = p, gen_range = [Suc k + j..<N]\<rparr>
           (?w1\<lparr>clock := clock ?w1 + j, trace := trace ?w1 @ poll_trace p ?rq [Suc k..<Suc k + j]\<rparr>)"
    by (rule Suc.IH [OF later le])
  also have "?w1\<lparr>clock := clock ?w1 + j, trace := trace ?w1 @ poll_trace p ?rq [Suc k..<Suc k + j]\<rparr> =
             w\<lparr>clock := clock w + Suc j, trace := trace w @ poll_trace p ?rq [k..<k + Suc j]\<rparr>"
    by (simp only: up' poll_trace_Cons) (simp add: time_sleep_def emit_def)
  finally show ?case by simp
qed

lemma import_loop_exhausted:
  assumes "\<forall>i<nat (attempts (retries self)).
             pending_import (client self) (clock w + i) (session_pk s)"
  shows "import_loop self s (iter_retries (retries self)) w =
           (Inl TimeoutError,
            w\<lparr>clock := clock w + nat (attempts (retries self)),
              trace := trace w @ poll_trace (retries self) (SessionDetail (session_pk s))
                                   [0..<nat (attempts (retries self))]\<rparr>)"
  using import_loop_pending [of "nat (attempts (retries self))" self w s 0
          "nat (attempts (retries self))" "retries self"] assms
  by (simp add: iter_retries_def import_loop_Nil)

lemma job_loop_exhausted:
  assumes "\<forall>i<nat (attempts (retries self)).
             pending_job (client self) (clock w + i) (algorithm_uuid self) img"
  shows "job_loop self img out (iter_retries (retries self)) w =
           (Inl TimeoutError,
            w\<lparr>clock := clock w + nat (attempts (retries self)),
              trace := trace w @ poll_trace (retries self) (JobsPage (algorithm_uuid self) img)
                                   [0..<nat (attempts (retries self))]\<rparr>)"
  using job_loop_pending [of "nat (attempts (retries self))" self w img 0
          "nat (attempts (retries self))" out "retries self"] assms
  by (simp add: iter_retries_def job_loop_Nil)

text \<open>
  C8. In both polling loops, when every one of the \<open>N\<close> attempts of the policy ends in
  a pending poll (an I/O error, an empty page of jobs, or a status other than "Succeeded",
  "Failed" and "Cancelled"), the loop makes exactly \<open>N\<close> polls and then raises
  TimeoutError, which is not the RuntimeError raised for "Failed" and "Cancelled".
\<close>

theorem exhausted_polling_times_out:
  "((\<forall>i<nat (attempts (retries self)).
        pending_import (client self) (clock w + i) (session_pk s))
    \<longrightarrow>
    import_loop self s (iter_retries (retries self)) w =
      (Inl TimeoutError,
       w\<lparr>clock := clock w + nat (attempts (retries self)),
         trace := trace w @ poll_trace (retries self) (SessionDetail (session_pk s))
                              [0..<nat (attempts (retries self))]\<rparr>))
   \<and>
   ((\<forall>i<nat (attempts (retries self)).
        pending_job (client self) (clock w + i) (algorithm_uuid self) img)
    \<longrightarrow>
    job_loop self img out (iter_retries (retries self)) w =
      (Inl TimeoutError,
       w\<lparr>clock := clock w + nat (attempts (retries self)),
         trace := trace w @ poll_trace (retries self) (JobsPage (algorithm_uuid self) img)
                              [0..<nat (attempts (retries self))]\<rparr>))
   \<and>
   TimeoutError \<noteq> RuntimeError msg"
  using import_loop_exhausted [of self w s] job_loop_exhausted [of self w img out]
  by simp

theorem exhausted_polling_times_out_witness:
  "import_loop
     (driver_of (table_client [] [] [(1, \<lparr>sd_status = ''Queued'', image_set = []\<rparr>),
                                     (2, \<lparr>sd_status = ''Started'', image_set = []\<rparr>)] [] [] []) 3)
     \<lparr>session_pk = ''s1''\<rparr> (iter_retries (ThrottledRetries_init 3 15)) start =
     (Inl TimeoutError,
      \<lparr>clock = 3,
       trace = [Call (SessionDetail ''s1''), Sleep (45 / 2), Call (SessionDetail ''s1''),
                Sleep (135 / 4), Call (SessionDetail ''s1'')]\<rparr>) \<and>
   job_loop
     (driver_of (table_client [] [] []
        [(1, []), (2, [\<lparr>job_status = ''Started'', outputs = []\<rparr>])] [] []) 3)
     ''img-7'' ''out/mask.mha'' (iter_retries (ThrottledRetries_init 3 15)) start =
     (Inl TimeoutError,
      \<lparr>clock = 3,
       trace = [Call (JobsPage ''alg-1'' ''img-7''), Sleep (45 / 2),
                Call (JobsPage ''alg-1'' ''img-7''), Sleep (135 / 4),
                Call (JobsPage ''alg-1'' ''img-7'')]\<rparr>) \<and>
   TimeoutError \<noteq> RuntimeError (''Algorithm '' @ quoted ''demo'' @ '' failed'')"
  using
    exhausted_polling_times_out [of
      "driver_of (table_client [] [] [(1, \<lparr>sd_status = ''Queued'', image_set = []\<rparr>),
                                     (2, \<lparr>sd_status = ''Started'', image_set = []\<rparr>)] [] [] []) 3"
      start "\<lparr>session_pk = ''s1''\<rparr>"]
    exhausted_polling_times_out [of
      "driver_of (table_client [] [] []
        [(1, []), (2, [\<lparr>job_status = ''Started'', outputs = []\<rparr>])] [] []) 3"
      start _ "''img-7''" "''out/mask.mha''"]
  by (simp add: driver_of_def table_client_def at_time_def at_url_def start_def
        ThrottledRetries_init_def backoff_def power2_eq_square pending_import_def
        pending_job_def poll_trace_def upt_conv_Cons All_less_Suc eval_nat_numeral)

text \<open>
  C6. Import polling, at any iteration for which the generator still has an index: when
  the poll reports status "Succeeded" with an empty list of image references, the loop
  raises the RuntimeError "Uploaded image could not be imported" right after this poll.
  No further index is taken from the generator, and the error is neither TimeoutError
  nor the RuntimeError of a rejected import.
\<close>

theorem import_without_image_fails_at_once:
  assumes "session_detail (client self) (clock w) (session_pk s) = Returns d"
    and "sd_status d = ''Succeeded''" and "image_set d = []"
  shows "import_loop self s \<lparr>gen_self = p, gen_range = n # ns\<rparr> w =
           (Inl (RuntimeError ''Uploaded image could not be imported, not a valid image?''),
            w\<lparr>clock := clock w + 1,
              trace := trace w @ poll_trace p (SessionDetail (session_pk s)) [n]\<rparr>) \<and>
         RuntimeError ''Uploaded image could not be imported, not a valid image?'' \<noteq> TimeoutError \<and>
         RuntimeError ''Uploaded image could not be imported, not a valid image?'' \<noteq>
           RuntimeError (''Algorithm '' @ quoted (algorithm self) @ '' could not be started'')"
proof -
  let ?w0 = "if 0 < n then time_sleep (backoff p n) w else w"
  have "session_detail (client self) (clock ?w0) (session_pk s) = Returns d"
    using assms(1) by (simp add: slept_clock)
  from import_body_no_image [OF this assms(2,3)] show ?thesis
    by (simp only: import_loop_Cons) (simp add: time_sleep_def emit_def poll_trace_def)
qed

theorem import_without_image_fails_at_once_witness:
  "import_loop
     (driver_of (table_client [] []
        [(0, \<lparr>sd_status = ''Succeeded'', image_set = []\<rparr>)] [] [] []) 25)
     \<lparr>session_pk = ''s1''\<rparr> (iter_retries (ThrottledRetries_init 25 15)) start =
     (Inl (RuntimeError ''Uploaded image could not be imported, not a valid image?''),
      \<lparr>clock = 1, trace = [Call (SessionDetail ''s1'')]\<rparr>)"
  using
    import_without_image_fails_at_once [of
      "driver_of (table_client [] []
        [(0, \<lparr>sd_status = ''Succeeded'', image_set = []\<rparr>)] [] [] []) 25"
      start "\<lparr>session_pk = ''s1''\<rparr>" "\<lparr>sd_status = ''Succeeded'', image_set = []\<rparr>"
      "ThrottledRetries_init 25 15" 0 "[1..<25]"]
  by (simp add: driver_of_def table_client_def at_time_def start_def iter_retries_def
        ThrottledRetries_init_def poll_trace_def upt_conv_Cons)

section \<open>Downloading the result\<close>

lemma image_urls_Nil: "image_urls [] = []"
  by (simp add: image_urls_def)

lemma image_urls_Cons:
  "image_urls (out # os) = (case output_image out of None \<Rightarrow> image_urls os | Some u \<Rightarrow> u # image_urls os)"
  by (simp add: image_urls_def split: option.splits)

lemma save_mask_no_mask:
  "list_all (\<lambda>f. image_type f \<noteq> ''MHD'') fs \<Longrightarrow> save_mask self fn fs w = (Inr False, w)"
  by (induction fs) simp_all

lemma save_mask_skip:
  "list_all (\<lambda>f. image_type f \<noteq> ''MHD'') fs1 \<Longrightarrow>
   save_mask self fn (fs1 @ fs2) w = save_mask self fn fs2 w"
  by (induction fs1) simp_all

lemma save_mask_found:
  assumes "list_all (\<lambda>f. image_type f \<noteq> ''MHD'') fs1" and "image_type f = ''MHD''"
    and "path_suffix fn = ''.mha''"
    and "get_content (client self) (clock w) (file_url f) = Returns content"
  shows "save_mask self fn (fs1 @ f # fs2) w =
           (Inr True,
            w\<lparr>clock := Suc (clock w),
              trace := trace w @ [Mkdir fn, OpenWb fn, Call (GetUrl (file_url f)),
                                  WriteBytes fn content]\<rparr>)"
  using assms by (simp add: save_mask_skip call_def emit_def Let_def)

lemma save_mask_bad_suffix_found:
  assumes "list_all (\<lambda>f. image_type f \<noteq> ''MHD'') fs1" and "image_type f = ''MHD''"
    and "path_suffix fn \<noteq> ''.mha''"
  shows "save_mask self fn (fs1 @ f # fs2) w =
           (Inl (ValueError ''Output file needs to have .mha extension''), w)"
  using assms by (simp add: save_mask_skip)

lemma download_results_Some:
  "output_image out = Some u \<Longrightarrow>
   download_results self (out # rest) fn w =
     (case get_image (client self) (clock w) u of
        Raises_IOError \<Rightarrow> (Inl IOError, w\<lparr>clock := Suc (clock w), trace := trace w @ [Call (GetUrl u)]\<rparr>)
      | Returns d \<Rightarrow>
          (case save_mask self fn (files d)
                  (w\<lparr>clock := Suc (clock w), trace := trace w @ [Call (GetUrl u)]\<rparr>) of
             (Inl e, w2) \<Rightarrow> (Inl e, w2)
           | (Inr True, w2) \<Rightarrow> (Inr (), w2)
           | (Inr False, w2) \<Rightarrow> download_results self rest fn w2))"
  by (simp add: call_def split: fetched.splits)

lemma download_results_skip:
  assumes "\<forall>out\<in>set xs. no_mask (client self) out"
  shows "download_results self (xs @ ys) fn w =
         download_results self ys fn
           (w\<lparr>clock := clock w + length (image_urls xs),
              trace := trace w @ map (\<lambda>u. Call (GetUrl u)) (image_urls xs)\<rparr>)"
  using assms
proof (induction xs arbitrary: w)
  case Nil
  then show ?case by (simp add: image_urls_Nil)
next
  case (Cons out xs)
  then have rest: "\<forall>out\<in>set xs. no_mask (client self) out"
    and this_one: "no_mask (client self) out" by simp_all
  show ?case
  proof (cases "output_image out")
    case None
    with Cons.IH [OF rest, of w] show ?thesis by (simp add: image_urls_Cons)
  next
    case (Some u)
    let ?w1 = "w\<lparr>clock := Suc (clock w), trace := trace w @ [Call (GetUrl u)]\<rparr>"
    from this_one Some obtain d where d: "get_image (client self) (clock w) u = Returns d"
      and nm: "list_all (\<lambda>f. image_type f \<noteq> ''MHD'') (files d)"
      by (auto simp: no_mask_def)
    have "download_results self ((out # xs) @ ys) fn w = download_results self (xs @ ys) fn ?w1"
      unfolding append_Cons
      by (subst download_results_Some [OF Some]) (simp add: d save_mask_no_mask [OF nm])
    also have "\<dots> = download_results self ys fn
           (?w1\<lparr>clock := clock ?w1 + length (image_urls xs),
              trace := trace ?w1 @ map (\<lambda>u. Call (GetUrl u)) (image_urls xs)\<rparr>)"
      by (rule Cons.IH [OF rest])
    finally show ?thesis using Some by (simp add: image_urls_Cons)
  qed
qed

lemma written_append: "written (xs @ ys) = written xs @ written ys"
  by (induction xs rule: written.induct) simp_all

lemma opened_append: "opened (xs @ ys) = opened xs @ opened ys"
  by (induction xs rule: opened.induct) simp_all

lemma made_dirs_append: "made_dirs (xs @ ys) = made_dirs xs @ made_dirs ys"
  by (induction xs rule: made_dirs.induct) simp_all

lemma written_calls: "written (map (\<lambda>u. Call (GetUrl u)) us) = []"
  by (induction us) simp_all

lemma opened_calls: "opened (map (\<lambda>u. Call (GetUrl u)) us) = []"
  by (induction us) simp_all

lemma made_dirs_calls: "made_dirs (map (\<lambda>u. Call (GetUrl u)) us) = []"
  by (induction us) simp_all

text \<open>
  C5. When no output of the sequence yields a mask (each has no image, or the listing of
  its image is returned and has no file of type MHD), the download step returns normally:
  it raises nothing, and all it does is fetch the listings of the images, in order. Nothing
  is written, no file is opened and no directory is made.
\<close>

theorem no_mask_no_write:
  assumes "\<forall>out\<in>set outs. no_mask (client self) out"
  shows "download_results self outs fn w =
           (Inr (),
            w\<lparr>clock := clock w + length (image_urls outs),
              trace := trace w @ map (\<lambda>u. Call (GetUrl u)) (image_urls outs)\<rparr>) \<and>
         written (trace (snd (download_results self outs fn w))) = written (trace w) \<and>
         opened (trace (snd (download_results self outs fn w))) = opened (trace w) \<and>
         made_dirs (trace (snd (download_results self outs fn w))) = made_dirs (trace w)"
  using download_results_skip [OF assms, of "[]" fn w]
  by (simp add: written_append opened_append made_dirs_append written_calls opened_calls
        made_dirs_calls)

theorem no_mask_no_write_witness:
  "download_results
     (driver_of (table_client [] [] [] []
        [(''img-url'', \<lparr>image_pk = ''img-7'',
            files = [\<lparr>image_type = ''JPEG'', file_url = ''thumb-url''\<rparr>]\<rparr>)] []) 25)
     [\<lparr>output_image = None\<rparr>, \<lparr>output_image = Some ''img-url''\<rparr>] ''out/mask.mha'' start =
     (Inr (), \<lparr>clock = 1, trace = [Call (GetUrl ''img-url'')]\<rparr>) \<and>
   written (trace (snd (download_results
     (driver_of (table_client [] [] [] []
        [(''img-url'', \<lparr>image_pk = ''img-7'',
            files = [\<lparr>image_type = ''JPEG'', file_url = ''thumb-url''\<rparr>]\<rparr>)] []) 25)
     [\<lparr>output_image = None\<rparr>, \<lparr>output_image = Some ''img-url''\<rparr>] ''out/mask.mha'' start))) = []"
  using no_mask_no_write [of
     "[\<lparr>output_image = None\<rparr>, \<lparr>output_image = Some ''img-url''\<rparr>]"
     "driver_of (table_client [] [] [] []
        [(''img-url'', \<lparr>image_pk = ''img-7'',
            files = [\<lparr>image_type = ''JPEG'', file_url = ''thumb-url''\<rparr>]\<rparr>)] []) 25"
     "''out/mask.mha''" start]
  by (simp add: no_mask_def driver_of_def table_client_def at_url_def start_def image_urls_def)

lemma save_mask_cases:
  "(\<exists>u c. save_mask self fn fs w =
            (Inr True,
             w\<lparr>clock := Suc (clock w),
               trace := trace w @ [Mkdir fn, OpenWb fn, Call (GetUrl u), WriteBytes fn c]\<rparr>)) \<or>
   save_mask self fn fs w = (Inr False, w) \<or>
   save_mask self fn fs w = (Inl (ValueError ''Output file needs to have .mha extension''), w) \<or>
   (\<exists>u. save_mask self fn fs w =
          (Inl IOError,
           w\<lparr>clock := Suc (clock w),
             trace := trace w @ [Mkdir fn, OpenWb fn, Call (GetUrl u)]\<rparr>))"
proof (induction fs)
  case Nil
  then show ?case by simp
next
  case (Cons f fs)
  show ?case
  proof (cases "image_type f \<noteq> ''MHD''")
    case True
    with Cons show ?thesis by simp
  next
    case False
    then show ?thesis
      by (cases "get_content (client self) (clock w) (file_url f)")
         (auto simp: call_def emit_def Let_def)
  qed
qed

lemma save_mask_at_most_one:
  "length (written (trace (snd (save_mask self fn fs w)))) \<le> Suc (length (written (trace w))) \<and>
   length (opened (trace (snd (save_mask self fn fs w)))) \<le> Suc (length (opened (trace w))) \<and>
   (fst (save_mask self fn fs w) = Inr False \<longrightarrow> snd (save_mask self fn fs w) = w)"
  using save_mask_cases [of self fn fs w]
  by (auto simp: written_append opened_append)

lemma download_results_at_most_one:
  "length (written (trace (snd (download_results self outs fn w)))) \<le>
     Suc (length (written (trace w))) \<and>
   length (opened (trace (snd (download_results self outs fn w)))) \<le>
     Suc (length (opened (trace w)))"
proof (induction outs arbitrary: w)
  case Nil
  then show ?case by simp
next
  case (Cons out outs)
  show ?case
  proof (cases "output_image out")
    case None
    with Cons show ?thesis by simp
  next
    case (Some u)
    let ?w1 = "w\<lparr>clock := Suc (clock w), trace := trace w @ [Call (GetUrl u)]\<rparr>"
    have w1: "written (trace ?w1) = written (trace w)" "opened (trace ?w1) = opened (trace w)"
      by (simp_all add: written_append opened_append)
    show ?thesis
    proof (cases "get_image (client self) (clock w) u")
      case Raises_IOError
      then show ?thesis
        by (subst (1 2) download_results_Some [OF Some]) (simp add: written_append opened_append)
    next
      case (Returns d)
      obtain r w2 where sm: "save_mask self fn (files d) ?w1 = (r, w2)"
        by (cases "save_mask self fn (files d) ?w1")
      from save_mask_at_most_one [of self fn "files d" ?w1] sm
      have b: "length (written (trace w2)) \<le> Suc (length (written (trace w)))"
              "length (opened (trace w2)) \<le> Suc (length (opened (trace w)))"
              "r = Inr False \<longrightarrow> w2 = ?w1"
        by (simp_all add: written_append opened_append)
      show ?thesis
      proof (cases r)
        case (Inl e)
        with b Returns sm show ?thesis
          by (subst (1 2) download_results_Some [OF Some]) (simp add: written_append opened_append)
      next
        case (Inr ret)
        show ?thesis
        proof (cases ret)
          case True
          with Inr b Returns sm show ?thesis
            by (subst (1 2) download_results_Some [OF Some]) (simp add: written_append opened_append)
        next
          case False
          with Inr b have "w2 = ?w1" by simp
          with False Inr Returns sm Cons [of ?w1] show ?thesis
            by (subst (1 2) download_results_Some [OF Some]) (simp add: written_append opened_append)
        qed
      qed
    qed
  qed
qed

lemma download_first_mask:
  assumes sfx: "path_suffix fn = ''.mha''"
    and ls: "get_image (client self) (clock w) x = Returns d"
    and fs: "files d = \<lparr>image_type = ''JPEG'', file_url = j\<rparr> #
                       \<lparr>image_type = ''MHD'', file_url = y\<rparr> # more_files"
    and ct: "get_content (client self) (Suc (clock w)) y = Returns content"
  shows "download_results self
           (\<lparr>output_image = None\<rparr> # \<lparr>output_image = Some x\<rparr> # later) fn w =
           (Inr (),
            w\<lparr>clock := clock w + 2,
              trace := trace w @ [Call (GetUrl x), Mkdir fn, OpenWb fn, Call (GetUrl y),
                                  WriteBytes fn content]\<rparr>)"
proof -
  let ?w1 = "w\<lparr>clock := Suc (clock w), trace := trace w @ [Call (GetUrl x)]\<rparr>"
  have "save_mask self fn ([\<lparr>image_type = ''JPEG'', file_url = j\<rparr>] @
            \<lparr>image_type = ''MHD'', file_url = y\<rparr> # more_files) ?w1 =
          (Inr True,
           ?w1\<lparr>clock := Suc (clock ?w1),
              trace := trace ?w1 @ [Mkdir fn, OpenWb fn,
                Call (GetUrl (file_url \<lparr>image_type = ''MHD'', file_url = y\<rparr>)),
                WriteBytes fn content]\<rparr>)"
    by (rule save_mask_found) (use sfx ct in simp_all)
  then have saved: "save_mask self fn (files d) ?w1 =
          (Inr True,
           w\<lparr>clock := clock w + 2,
             trace := trace w @ [Call (GetUrl x), Mkdir fn, OpenWb fn, Call (GetUrl y),
                                 WriteBytes fn content]\<rparr>)"
    by (simp add: fs)
  have "download_results self
           (\<lparr>output_image = None\<rparr> # \<lparr>output_image = Some x\<rparr> # later) fn w =
        download_results self (\<lparr>output_image = Some x\<rparr> # later) fn w"
    by simp
  also have "\<dots> = (Inr (),
            w\<lparr>clock := clock w + 2,
              trace := trace w @ [Call (GetUrl x), Mkdir fn, OpenWb fn, Call (GetUrl y),
                                  WriteBytes fn content]\<rparr>)"
    by (subst download_results_Some [where u = x]) (simp_all add: ls saved)
  finally show ?thesis .
qed

text \<open>
  C9. For outputs that start with one without image and one whose image lists a JPEG file
  and then an MHD file \<open>y\<close>, and a destination ending in .mha, the download step fetches
  the listing, makes the parent directory, opens the destination, fetches \<open>y\<close>, writes
  exactly that content and returns; later files and later outputs are not looked at.
  For every sequence of outputs, every client and every destination, the step writes at
  most once and opens at most one file.
\<close>

theorem first_mask_is_the_only_write:
  "(path_suffix fn = ''.mha'' \<and>
    get_image (client self) (clock w) x = Returns d \<and>
    files d = \<lparr>image_type = ''JPEG'', file_url = j\<rparr> #
              \<lparr>image_type = ''MHD'', file_url = y\<rparr> # more_files \<and>
    get_content (client self) (Suc (clock w)) y = Returns content
    \<longrightarrow>
    download_results self
      (\<lparr>output_image = None\<rparr> # \<lparr>output_image = Some x\<rparr> # later) fn w =
      (Inr (),
       w\<lparr>clock := clock w + 2,
         trace := trace w @ [Call (GetUrl x), Mkdir fn, OpenWb fn, Call (GetUrl y),
                             WriteBytes fn content]\<rparr>))
   \<and>
   length (written (trace (snd (download_results self outs fn' w')))) \<le>
     Suc (length (written (trace w'))) \<and>
   length (opened (trace (snd (download_results self outs fn' w')))) \<le>
     Suc (length (opened (trace w')))"
  using download_first_mask [of fn self w x d j y more_files content later]
    download_results_at_most_one [of self outs fn' w']
  by blast

theorem first_mask_is_the_only_write_witness:
  "download_results
     (driver_of (table_client [] [] [] []
        [(''img-x'', \<lparr>image_pk = ''img-7'',
            files = [\<lparr>image_type = ''JPEG'', file_url = ''thumb-url''\<rparr>,
                     \<lparr>image_type = ''MHD'', file_url = ''mask-y''\<rparr>]\<rparr>),
         (''img-z'', \<lparr>image_pk = ''img-8'',
            files = [\<lparr>image_type = ''MHD'', file_url = ''mask-z''\<rparr>]\<rparr>)]
        [(''mask-y'', ''Y bytes''), (''mask-z'', ''Z bytes'')]) 25)
     [\<lparr>output_image = None\<rparr>, \<lparr>output_image = Some ''img-x''\<rparr>,
      \<lparr>output_image = Some ''img-z''\<rparr>]
     ''out/mask.mha'' start =
     (Inr (),
      \<lparr>clock = 2,
       trace = [Call (GetUrl ''img-x''), Mkdir ''out/mask.mha'', OpenWb ''out/mask.mha'',
                Call (GetUrl ''mask-y''), WriteBytes ''out/mask.mha'' ''Y bytes'']\<rparr>)"
  using first_mask_is_the_only_write [of "''out/mask.mha''"
     "driver_of (table_client [] [] [] []
        [(''img-x'', \<lparr>image_pk = ''img-7'',
            files = [\<lparr>image_type = ''JPEG'', file_url = ''thumb-url''\<rparr>,
                     \<lparr>image_type = ''MHD'', file_url = ''mask-y''\<rparr>]\<rparr>),
         (''img-z'', \<lparr>image_pk = ''img-8'',
            files = [\<lparr>image_type = ''MHD'', file_url = ''mask-z''\<rparr>]\<rparr>)]
        [(''mask-y'', ''Y bytes''), (''mask-z'', ''Z bytes'')]) 25"
     start "''img-x''"
     "\<lparr>image_pk = ''img-7'',
            files = [\<lparr>image_type = ''JPEG'', file_url = ''thumb-url''\<rparr>,
                     \<lparr>image_type = ''MHD'', file_url = ''mask-y''\<rparr>]\<rparr>"
     "''thumb-url''" "''mask-y''" "[]" "''Y bytes''" "[\<lparr>output_image = Some ''img-z''\<rparr>]"]
  by (simp add: path_suffix_def path_name_def rfind_dot_def driver_of_def table_client_def
        at_url_def start_def)


lemma image_urls_append: "image_urls (xs @ ys) = image_urls xs @ image_urls ys"
  by (induction xs) (simp_all add: image_urls_Nil image_urls_Cons split: option.splits)

lemma image_urls_none: "\<forall>out\<in>set xs. output_image out = None \<Longrightarrow> image_urls xs = []"
  by (induction xs) (simp_all add: image_urls_Nil image_urls_Cons)

text \<open>
  C10. When the first output with an image reference yields no mask, the scan goes on:
  with further outputs that yield no mask in between, the mask of the first later output
  whose listing has a file of type MHD is fetched and written to the destination (the
  first such file of that listing), and the step returns.
\<close>

theorem scan_continues_to_later_mask:
  assumes pre: "\<forall>out\<in>set pre. output_image out = None"
    and o1: "output_image out1 = Some x1" "no_mask (client self) out1"
    and mid: "\<forall>out\<in>set mid. no_mask (client self) out"
    and o2: "output_image out2 = Some x2"
    and ls: "get_image (client self) (clock w + Suc (length (image_urls mid))) x2 = Returns d2"
    and fs: "files d2 = fs1 @ f # fs2" "list_all (\<lambda>f. image_type f \<noteq> ''MHD'') fs1"
            "image_type f = ''MHD''"
    and ct: "get_content (client self) (clock w + Suc (Suc (length (image_urls mid)))) (file_url f) =
               Returns content"
    and sfx: "path_suffix fn = ''.mha''"
  shows "download_results self (pre @ out1 # mid @ out2 # rest) fn w =
           (Inr (),
            w\<lparr>clock := clock w + length (image_urls mid) + 3,
              trace := trace w @ Call (GetUrl x1) # map (\<lambda>u. Call (GetUrl u)) (image_urls mid) @
                         [Call (GetUrl x2), Mkdir fn, OpenWb fn, Call (GetUrl (file_url f)),
                          WriteBytes fn content]\<rparr>)"
proof -
  let ?xs = "pre @ out1 # mid"
  define w1 where "w1 = w\<lparr>clock := clock w + length (image_urls ?xs),
               trace := trace w @ map (\<lambda>u. Call (GetUrl u)) (image_urls ?xs)\<rparr>"
  define w2 where "w2 = w1\<lparr>clock := Suc (clock w1), trace := trace w1 @ [Call (GetUrl x2)]\<rparr>"
  have urls: "image_urls ?xs = x1 # image_urls mid"
    using pre o1(1) by (simp add: image_urls_append image_urls_none image_urls_Cons)
  have c1: "clock w1 = clock w + Suc (length (image_urls mid))"
    and c2: "clock w2 = clock w + Suc (Suc (length (image_urls mid)))"
    by (simp_all add: w1_def w2_def urls)
  have "\<forall>out\<in>set pre. no_mask (client self) out"
    using pre by (simp add: no_mask_def)
  with o1(2) mid have all: "\<forall>out\<in>set ?xs. no_mask (client self) out" by auto
  have saved: "save_mask self fn (fs1 @ f # fs2) w2 =
           (Inr True,
            w2\<lparr>clock := Suc (clock w2),
              trace := trace w2 @ [Mkdir fn, OpenWb fn, Call (GetUrl (file_url f)),
                                  WriteBytes fn content]\<rparr>)"
    by (rule save_mask_found [OF fs(2,3) sfx]) (use ct in \<open>simp add: c2\<close>)
  have "download_results self (?xs @ out2 # rest) fn w =
        download_results self (out2 # rest) fn w1"
    unfolding w1_def by (rule download_results_skip [OF all])
  also have "\<dots> = (Inr (),
            w2\<lparr>clock := Suc (clock w2),
              trace := trace w2 @ [Mkdir fn, OpenWb fn, Call (GetUrl (file_url f)),
                                  WriteBytes fn content]\<rparr>)"
  proof -
    have "get_image (client self) (clock w1) x2 = Returns d2"
      using ls by (simp add: c1)
    then have "download_results self (out2 # rest) fn w1 =
        (case save_mask self fn (files d2) w2 of
           (Inl e, w3) \<Rightarrow> (Inl e, w3)
         | (Inr True, w3) \<Rightarrow> (Inr (), w3)
         | (Inr False, w3) \<Rightarrow> download_results self rest fn w3)"
      by (subst download_results_Some [OF o2]) (simp add: w2_def)
    then show ?thesis by (simp only: fs(1) saved) simp
  qed
  finally show ?thesis by (simp add: w2_def w1_def urls)
qed

theorem scan_continues_to_later_mask_witness:
  "download_results
     (driver_of (table_client [] [] [] []
        [(''img-a'', \<lparr>image_pk = ''img-1'',
            files = [\<lparr>image_type = ''JPEG'', file_url = ''thumb-a''\<rparr>]\<rparr>),
         (''img-b'', \<lparr>image_pk = ''img-2'', files = []\<rparr>),
         (''img-c'', \<lparr>image_pk = ''img-3'',
            files = [\<lparr>image_type = ''PNG'', file_url = ''thumb-c''\<rparr>,
                     \<lparr>image_type = ''MHD'', file_url = ''mask-c''\<rparr>]\<rparr>)]
        [(''mask-c'', ''C bytes'')]) 25)
     [\<lparr>output_image = None\<rparr>, \<lparr>output_image = Some ''img-a''\<rparr>,
      \<lparr>output_image = Some ''img-b''\<rparr>, \<lparr>output_image = Some ''img-c''\<rparr>]
     ''mask.mha'' start =
     (Inr (),
      \<lparr>clock = 4,
       trace = [Call (GetUrl ''img-a''), Call (GetUrl ''img-b''), Call (GetUrl ''img-c''),
                Mkdir ''mask.mha'', OpenWb ''mask.mha'',
                Call (GetUrl ''mask-c''), WriteBytes ''mask.mha'' ''C bytes'']\<rparr>)"
  using scan_continues_to_later_mask [of
     "[\<lparr>output_image = None\<rparr>]" "\<lparr>output_image = Some ''img-a''\<rparr>" "''img-a''"
     "driver_of (table_client [] [] [] []
        [(''img-a'', \<lparr>image_pk = ''img-1'',
            files = [\<lparr>image_type = ''JPEG'', file_url = ''thumb-a''\<rparr>]\<rparr>),
         (''img-b'', \<lparr>image_pk = ''img-2'', files = []\<rparr>),
         (''img-c'', \<lparr>image_pk = ''img-3'',
            files = [\<lparr>image_type = ''PNG'', file_url = ''thumb-c''\<rparr>,
                     \<lparr>image_type = ''MHD'', file_url = ''mask-c''\<rparr>]\<rparr>)]
        [(''mask-c'', ''C bytes'')]) 25"
     "[\<lparr>output_image = Some ''img-b''\<rparr>]" "\<lparr>output_image = Some ''img-c''\<rparr>" "''img-c''"
     start
     "\<lparr>image_pk = ''img-3'',
            files = [\<lparr>image_type = ''PNG'', file_url = ''thumb-c''\<rparr>,
                     \<lparr>image_type = ''MHD'', file_url = ''mask-c''\<rparr>]\<rparr>"
     "[\<lparr>image_type = ''PNG'', file_url = ''thumb-c''\<rparr>]"
     "\<lparr>image_type = ''MHD'', file_url = ''mask-c''\<rparr>" "[]" "''C bytes''" "''mask.mha''" "[]"]
  by (simp add: no_mask_def path_suffix_def path_name_def rfind_dot_def driver_of_def
        table_client_def at_url_def start_def image_urls_def)

lemma save_mask_bad_suffix:
  "path_suffix fn \<noteq> ''.mha'' \<Longrightarrow>
   save_mask self fn fs w =
     (if list_all (\<lambda>f. image_type f \<noteq> ''MHD'') fs then Inr False
      else Inl (ValueError ''Output file needs to have .mha extension''), w)"
  by (induction fs) simp_all

lemma download_bad_suffix_trace:
  assumes "path_suffix fn \<noteq> ''.mha''"
  shows "clock w \<le> clock (snd (download_results self outs fn w)) \<and>
         trace (snd (download_results self outs fn w)) =
           trace w @ map (\<lambda>u. Call (GetUrl u))
             (take (clock (snd (download_results self outs fn w)) - clock w) (image_urls outs))"
proof (induction outs arbitrary: w)
  case Nil
  then show ?case by simp
next
  case (Cons out outs)
  show ?case
  proof (cases "output_image out")
    case None
    with Cons [of w] show ?thesis by (simp add: image_urls_Cons)
  next
    case (Some u)
    let ?w1 = "w\<lparr>clock := Suc (clock w), trace := trace w @ [Call (GetUrl u)]\<rparr>"
    show ?thesis
    proof (cases "get_image (client self) (clock w) u")
      case Raises_IOError
      with Some show ?thesis
        by (subst (1 2 3) download_results_Some [OF Some]) (simp add: image_urls_Cons)
    next
      case (Returns d)
      show ?thesis
      proof (cases "list_all (\<lambda>f. image_type f \<noteq> ''MHD'') (files d)")
        case False
        with Some Returns show ?thesis
          by (subst (1 2 3) download_results_Some [OF Some])
             (simp add: image_urls_Cons save_mask_bad_suffix [OF assms])
      next
        case True
        have eq: "download_results self (out # outs) fn w = download_results self outs fn ?w1"
          by (subst download_results_Some [OF Some])
             (simp add: Returns True save_mask_bad_suffix [OF assms])
        from Cons [of ?w1]
        have le: "Suc (clock w) \<le> clock (snd (download_results self outs fn ?w1))"
          and tr: "trace (snd (download_results self outs fn ?w1)) =
             trace w @ Call (GetUrl u) # map (\<lambda>u. Call (GetUrl u))
               (take (clock (snd (download_results self outs fn ?w1)) - Suc (clock w))
                  (image_urls outs))"
          by simp_all
        from le have "clock (snd (download_results self outs fn ?w1)) - clock w =
                      Suc (clock (snd (download_results self outs fn ?w1)) - Suc (clock w))"
          by simp
        with le tr Some show ?thesis
          unfolding eq by (simp add: image_urls_Cons)
      qed
    qed
  qed
qed

lemma download_bad_suffix_found:
  assumes sfx: "path_suffix fn \<noteq> ''.mha''"
    and pre: "\<forall>out\<in>set pre. no_mask (client self) out"
    and out: "output_image out = Some x"
    and ls: "get_image (client self) (clock w + length (image_urls pre)) x = Returns d"
    and mhd: "\<not> list_all (\<lambda>f. image_type f \<noteq> ''MHD'') (files d)"
  shows "download_results self (pre @ out # rest) fn w =
           (Inl (ValueError ''Output file needs to have .mha extension''),
            w\<lparr>clock := clock w + length (image_urls pre) + 1,
              trace := trace w @ map (\<lambda>u. Call (GetUrl u)) (image_urls pre) @ [Call (GetUrl x)]\<rparr>)"
proof -
  let ?w1 = "w\<lparr>clock := clock w + length (image_urls pre),
               trace := trace w @ map (\<lambda>u. Call (GetUrl u)) (image_urls pre)\<rparr>"
  have "download_results self (pre @ out # rest) fn w = download_results self (out # rest) fn ?w1"
    by (rule download_results_skip [OF pre])
  also have "\<dots> = (Inl (ValueError ''Output file needs to have .mha extension''),
            w\<lparr>clock := clock w + length (image_urls pre) + 1,
              trace := trace w @ map (\<lambda>u. Call (GetUrl u)) (image_urls pre) @ [Call (GetUrl x)]\<rparr>)"
    using ls mhd
    by (subst download_results_Some [OF out]) (simp add: save_mask_bad_suffix [OF sfx])
  finally show ?thesis .
qed

text \<open>
  C2, as the code has it. With a destination whose extension is not .mha, every event of
  the download step is the fetch of the listing of a scanned output's image: no directory
  is made, no file is opened or written, no mask content is fetched. The ValueError is
  raised when the scan reaches the first listing with a file of type MHD, after the
  listings up to and including that one have been fetched; when no output yields a mask
  the step returns normally and raises nothing.
\<close>

theorem extension_checked_at_first_mask:
  assumes "path_suffix fn \<noteq> ''.mha''"
  shows "trace (snd (download_results self outs fn w)) =
           trace w @ map (\<lambda>u. Call (GetUrl u))
             (take (clock (snd (download_results self outs fn w)) - clock w) (image_urls outs)) \<and>
         made_dirs (trace (snd (download_results self outs fn w))) = made_dirs (trace w) \<and>
         opened (trace (snd (download_results self outs fn w))) = opened (trace w) \<and>
         written (trace (snd (download_results self outs fn w))) = written (trace w) \<and>
         ((\<forall>out\<in>set pre. no_mask (client self) out) \<and> output_image out = Some x \<and>
          get_image (client self) (clock w + length (image_urls pre)) x = Returns d \<and>
          \<not> list_all (\<lambda>f. image_type f \<noteq> ''MHD'') (files d)
          \<longrightarrow>
          download_results self (pre @ out # rest) fn w =
            (Inl (ValueError ''Output file needs to have .mha extension''),
             w\<lparr>clock := clock w + length (image_urls pre) + 1,
               trace := trace w @ map (\<lambda>u. Call (GetUrl u)) (image_urls pre) @
                          [Call (GetUrl x)]\<rparr>)) \<and>
         ((\<forall>out\<in>set outs. no_mask (client self) out)
          \<longrightarrow> fst (download_results self outs fn w) = Inr ())"
proof -
  let ?R = "download_results self outs fn w"
  have tr: "trace (snd ?R) =
           trace w @ map (\<lambda>u. Call (GetUrl u)) (take (clock (snd ?R) - clock w) (image_urls outs))"
    using download_bad_suffix_trace [OF assms, of w self outs] by simp
  have fs: "made_dirs (trace (snd ?R)) = made_dirs (trace w)"
    "opened (trace (snd ?R)) = opened (trace w)"
    "written (trace (snd ?R)) = written (trace w)"
    by (subst tr, simp add: made_dirs_append opened_append written_append
          made_dirs_calls opened_calls written_calls)+
  have ok: "fst ?R = Inr ()" if "\<forall>out\<in>set outs. no_mask (client self) out"
    using download_results_skip [OF that, of "[]" fn w] by simp
  show ?thesis
    using tr fs ok download_bad_suffix_found [OF assms, of pre self out x w d rest]
    by blast
qed

theorem extension_checked_at_first_mask_witness:
  "path_suffix ''result.png'' \<noteq> ''.mha'' \<and>
   download_results
     (driver_of (table_client [] [] [] []
        [(''img-a'', \<lparr>image_pk = ''img-1'',
            files = [\<lparr>image_type = ''JPEG'', file_url = ''thumb-a''\<rparr>]\<rparr>),
         (''img-c'', \<lparr>image_pk = ''img-3'',
            files = [\<lparr>image_type = ''MHD'', file_url = ''mask-c''\<rparr>]\<rparr>)]
        [(''mask-c'', ''C bytes'')]) 25)
     [\<lparr>output_image = Some ''img-a''\<rparr>, \<lparr>output_image = Some ''img-c''\<rparr>]
     ''result.png'' start =
     (Inl (ValueError ''Output file needs to have .mha extension''),
      \<lparr>clock = 2, trace = [Call (GetUrl ''img-a''), Call (GetUrl ''img-c'')]\<rparr>) \<and>
   fst (download_results
     (driver_of (table_client [] [] [] []
        [(''img-a'', \<lparr>image_pk = ''img-1'',
            files = [\<lparr>image_type = ''JPEG'', file_url = ''thumb-a''\<rparr>]\<rparr>),
         (''img-c'', \<lparr>image_pk = ''img-3'',
            files = [\<lparr>image_type = ''MHD'', file_url = ''mask-c''\<rparr>]\<rparr>)]
        [(''mask-c'', ''C bytes'')]) 25)
     [\<lparr>output_image = Some ''img-a''\<rparr>] ''result.png'' start) = Inr ()"
  using
    extension_checked_at_first_mask [of "''result.png''"
     "driver_of (table_client [] [] [] []
        [(''img-a'', \<lparr>image_pk = ''img-1'',
            files = [\<lparr>image_type = ''JPEG'', file_url = ''thumb-a''\<rparr>]\<rparr>),
         (''img-c'', \<lparr>image_pk = ''img-3'',
            files = [\<lparr>image_type = ''MHD'', file_url = ''mask-c''\<rparr>]\<rparr>)]
        [(''mask-c'', ''C bytes'')]) 25"
     "[\<lparr>output_image = Some ''img-a''\<rparr>]" start
     "[\<lparr>output_image = Some ''img-a''\<rparr>]" "\<lparr>output_image = Some ''img-c''\<rparr>" "''img-c''"
     "\<lparr>image_pk = ''img-3'',
            files = [\<lparr>image_type = ''MHD'', file_url = ''mask-c''\<rparr>]\<rparr>" "[]"]
  by (simp add: no_mask_def path_suffix_def path_name_def rfind_dot_def driver_of_def
        table_client_def at_url_def start_def image_urls_def)

text \<open>
  C2 as stated fails: with destination result.png the ValueError comes only after a
  network fetch, and with no MHD file in the listing no error comes at all.
\<close>

theorem extension_check_counterexample:
  "path_suffix ''result.png'' \<noteq> ''.mha'' \<and>
   download_results
     (driver_of (table_client [] [] [] []
        [(''img-url'', \<lparr>image_pk = ''img-7'',
            files = [\<lparr>image_type = ''MHD'', file_url = ''mask-url''\<rparr>]\<rparr>)]
        [(''mask-url'', ''bytes'')]) 25)
     [\<lparr>output_image = Some ''img-url''\<rparr>] ''result.png'' start =
     (Inl (ValueError ''Output file needs to have .mha extension''),
      \<lparr>clock = 1, trace = [Call (GetUrl ''img-url'')]\<rparr>) \<and>
   download_results
     (driver_of (table_client [] [] [] []
        [(''img-url'', \<lparr>image_pk = ''img-7'',
            files = [\<lparr>image_type = ''JPEG'', file_url = ''thumb-url''\<rparr>]\<rparr>)]
        []) 25)
     [\<lparr>output_image = Some ''img-url''\<rparr>] ''result.png'' start =
     (Inr (), \<lparr>clock = 1, trace = [Call (GetUrl ''img-url'')]\<rparr>)"
  by (simp add: path_suffix_def path_name_def rfind_dot_def driver_of_def table_client_def
        at_url_def call_def start_def)

section \<open>Both loops in one run\<close>

lemma poll_trace_snoc:
  "poll_trace p rq (ns @ [n]) = poll_trace p rq ns @ (if 0 < n then [Sleep (backoff p n)] else []) @ [Call rq]"
  by (simp add: poll_trace_def)

lemma import_resolved_after:
  assumes pend: "\<forall>i<j. pending_import (client self) (clock w + i) (session_pk s)"
    and j: "j < nat (attempts (retries self))"
    and sd: "session_detail (client self) (clock w + j) (session_pk s) = Returns d"
            "sd_status d = ''Succeeded''" "image_set d = url # others"
    and im: "get_image (client self) (clock w + Suc j) url = Returns img"
  shows "import_loop self s (iter_retries (retries self)) w =
           (Inr (image_pk img),
            w\<lparr>clock := clock w + j + 2,
              trace := trace w @
                poll_trace (retries self) (SessionDetail (session_pk s)) [0..<Suc j] @
                [Call (GetUrl url)]\<rparr>)"
proof -
  let ?p = "retries self" and ?N = "nat (attempts (retries self))"
  let ?rq = "SessionDetail (session_pk s)"
  define w1 where "w1 = w\<lparr>clock := clock w + j, trace := trace w @ poll_trace ?p ?rq [0..<0 + j]\<rparr>"
  define w2 where "w2 = (if 0 < j then time_sleep (backoff ?p j) w1 else w1)"
  have c2: "clock w2 = clock w + j" by (simp add: w2_def w1_def time_sleep_def emit_def)
  from j have le: "0 + j \<le> ?N" by simp
  have up: "[0 + j..<?N] = j # [Suc j..<?N]" using j by (simp add: upt_conv_Cons)
  have body: "import_body self s w2 =
      (Break (image_pk img),
       w2\<lparr>clock := Suc (Suc (clock w2)), trace := trace w2 @ [Call ?rq, Call (GetUrl url)]\<rparr>)"
    by (rule import_body_resolved [where d = d and others = others])
       (use sd im in \<open>simp_all add: c2\<close>)
  have "import_loop self s (iter_retries ?p) w =
        import_loop self s \<lparr>gen_self = ?p, gen_range = [0 + j..<?N]\<rparr> w1"
    unfolding iter_retries_def w1_def by (rule import_loop_pending [OF pend le])
  also have "\<dots> = (Inr (image_pk img),
       w2\<lparr>clock := Suc (Suc (clock w2)), trace := trace w2 @ [Call ?rq, Call (GetUrl url)]\<rparr>)"
    by (simp only: up import_loop_Cons w2_def [symmetric] body) simp
  also have "w2\<lparr>clock := Suc (Suc (clock w2)), trace := trace w2 @ [Call ?rq, Call (GetUrl url)]\<rparr> =
             w\<lparr>clock := clock w + j + 2,
               trace := trace w @ poll_trace ?p ?rq [0..<Suc j] @ [Call (GetUrl url)]\<rparr>"
    by (simp add: w2_def w1_def time_sleep_def emit_def poll_trace_snoc)
  finally show ?thesis .
qed

lemma consume_indices:
  "map fst (fst (consume (iter_retries p) w)) = [0..<nat (attempts p)]"
  by (simp add: iter_retries_def consume_upt comp_def)

lemma run_polls_twice:
  assumes up: "upload_cases (client self) (clock w) input_files (algorithm self) = Returns s"
    and pend: "\<forall>i<j. pending_import (client self) (clock w + 1 + i) (session_pk s)"
    and j: "j < nat (attempts (retries self))"
    and sd: "session_detail (client self) (clock w + 1 + j) (session_pk s) = Returns d"
            "sd_status d = ''Succeeded''" "image_set d = url # others"
    and im: "get_image (client self) (clock w + 2 + j) url = Returns img"
    and jobs: "\<forall>i<nat (attempts (retries self)).
                 pending_job (client self) (clock w + 3 + j + i) (algorithm_uuid self) (image_pk img)"
  shows "run self input_files output_file w =
           (Inl TimeoutError,
            w\<lparr>clock := clock w + 3 + j + nat (attempts (retries self)),
              trace := trace w @
                [Print (''Uploading to grand-challenge.org to run '' @ quoted (algorithm self)),
                 Call (UploadCases input_files (algorithm self)),
                 Print (''Waiting for image import to finish for algorithm '' @
                        quoted (algorithm self)),
                 Sleep 30] @
                poll_trace (retries self) (SessionDetail (session_pk s)) [0..<Suc j] @
                [Call (GetUrl url),
                 Print (''Waiting for results of algorithm '' @ quoted (algorithm self)),
                 Sleep (of_int (headstart self))] @
                poll_trace (retries self) (JobsPage (algorithm_uuid self) (image_pk img))
                  [0..<nat (attempts (retries self))]\<rparr>)"
proof -
  let ?p = "retries self" and ?N = "nat (attempts (retries self))"
  define m1 where "m1 = ''Uploading to grand-challenge.org to run '' @ quoted (algorithm self)"
  define m2 where
    "m2 = ''Waiting for image import to finish for algorithm '' @ quoted (algorithm self)"
  define m3 where "m3 = ''Waiting for results of algorithm '' @ quoted (algorithm self)"
  define w4 where "w4 = w\<lparr>clock := Suc (clock w),
     trace := trace w @ [Print m1, Call (UploadCases input_files (algorithm self)), Print m2,
                         Sleep 30]\<rparr>"
  define w5 where "w5 = w4\<lparr>clock := clock w4 + j + 2,
              trace := trace w4 @
                poll_trace ?p (SessionDetail (session_pk s)) [0..<Suc j] @ [Call (GetUrl url)]\<rparr>"
  define w7 where "w7 = w5\<lparr>trace := trace w5 @ [Print m3, Sleep (of_int (headstart self))]\<rparr>"
  have c4: "clock w4 = clock w + 1" by (simp add: w4_def)
  have c7: "clock w7 = clock w + 3 + j" by (simp add: w7_def w5_def w4_def)
  have p1: "import_loop self s (iter_retries ?p) w4 = (Inr (image_pk img), w5)"
    unfolding w5_def
    by (rule import_resolved_after [where d = d and others = others])
       (use pend j sd im in \<open>simp_all add: c4\<close>)
  have p2: "job_loop self (image_pk img) output_file (iter_retries ?p) w7 =
           (Inl TimeoutError,
            w7\<lparr>clock := clock w7 + ?N,
              trace := trace w7 @ poll_trace ?p (JobsPage (algorithm_uuid self) (image_pk img))
                                   [0..<?N]\<rparr>)"
    by (rule job_loop_exhausted) (use jobs in \<open>simp add: c7\<close>)
  have s4: "time_sleep 30 (print m2 (snd (call (UploadCases input_files (algorithm self))
                (\<lambda>t. upload_cases (client self) t input_files (algorithm self))
                (print m1 w)))) = w4"
    by (simp add: w4_def time_sleep_def print_def emit_def call_def)
  have s7: "time_sleep (of_int (headstart self)) (print m3 w5) = w7"
    by (simp add: w7_def time_sleep_def print_def emit_def)
  have u: "fst (call (UploadCases input_files (algorithm self))
                (\<lambda>t. upload_cases (client self) t input_files (algorithm self))
                (print m1 w)) = Returns s"
    using up by (simp add: call_def print_def emit_def)
  have "run self input_files output_file w =
          (Inl TimeoutError,
            w7\<lparr>clock := clock w7 + ?N,
              trace := trace w7 @ poll_trace ?p (JobsPage (algorithm_uuid self) (image_pk img))
                                   [0..<?N]\<rparr>)"
    unfolding run_def Let_def m1_def [symmetric] m2_def [symmetric] m3_def [symmetric]
    by (simp only: split_beta u fetched.case s4 p1 prod.case sum.case s7 p2 fst_conv snd_conv)
  also have "w7\<lparr>clock := clock w7 + ?N,
              trace := trace w7 @ poll_trace ?p (JobsPage (algorithm_uuid self) (image_pk img))
                                   [0..<?N]\<rparr> =
        w\<lparr>clock := clock w + 3 + j + ?N,
              trace := trace w @
                [Print m1, Call (UploadCases input_files (algorithm self)), Print m2, Sleep 30] @
                poll_trace ?p (SessionDetail (session_pk s)) [0..<Suc j] @
                [Call (GetUrl url), Print m3, Sleep (of_int (headstart self))] @
                poll_trace ?p (JobsPage (algorithm_uuid self) (image_pk img)) [0..<?N]\<rparr>"
    by (simp add: w7_def w5_def w4_def del: upt_Suc)
  finally show ?thesis unfolding m1_def m2_def m3_def .
qed

text \<open>
  C3, as the code has it. Iterating a policy does not use it up: a second iteration of
  the same policy, after a first one has run to its end, yields the full sequence
  \<open>0, ..., N - 1\<close> again, because every \<^verbatim>\<open>for\<close> loop gets a new generator. The driver
  iterates its one policy twice, once per polling loop, and each loop has all \<open>N\<close>
  attempts: when the import is resolved at its poll of index \<open>j\<close> and every poll for
  the job is pending, the second loop makes \<open>N\<close> polls before TimeoutError.
\<close>

theorem policy_restarts_on_every_iteration:
  "map fst (fst (consume (iter_retries p) w)) = [0..<nat (attempts p)] \<and>
   map fst (fst (consume (iter_retries p) (snd (consume (iter_retries p) w)))) =
     [0..<nat (attempts p)] \<and>
   (upload_cases (client self) (clock w) input_files (algorithm self) = Returns s \<and>
    (\<forall>i<j. pending_import (client self) (clock w + 1 + i) (session_pk s)) \<and>
    j < nat (attempts (retries self)) \<and>
    session_detail (client self) (clock w + 1 + j) (session_pk s) = Returns d \<and>
    sd_status d = ''Succeeded'' \<and> image_set d = url # others \<and>
    get_image (client self) (clock w + 2 + j) url = Returns img \<and>
    (\<forall>i<nat (attempts (retries self)).
        pending_job (client self) (clock w + 3 + j + i) (algorithm_uuid self) (image_pk img))
    \<longrightarrow>
    run self input_files output_file w =
      (Inl TimeoutError,
       w\<lparr>clock := clock w + 3 + j + nat (attempts (retries self)),
         trace := trace w @
           [Print (''Uploading to grand-challenge.org to run '' @ quoted (algorithm self)),
            Call (UploadCases input_files (algorithm self)),
            Print (''Waiting for image import to finish for algorithm '' @
                   quoted (algorithm self)),
            Sleep 30] @
           poll_trace (retries self) (SessionDetail (session_pk s)) [0..<Suc j] @
           [Call (GetUrl url),
            Print (''Waiting for results of algorithm '' @ quoted (algorithm self)),
            Sleep (of_int (headstart self))] @
           poll_trace (retries self) (JobsPage (algorithm_uuid self) (image_pk img))
             [0..<nat (attempts (retries self))]\<rparr>))"
  using consume_indices [of p w] consume_indices [of p "snd (consume (iter_retries p) w)"]
    run_polls_twice [of self w input_files s j d url others img output_file]
  by blast

theorem policy_restarts_on_every_iteration_witness:
  "run
     (driver_of (table_client [] [(0, \<lparr>session_pk = ''s1''\<rparr>)]
        [(1, \<lparr>sd_status = ''Succeeded'', image_set = [''img-url'']\<rparr>)] []
        [(''img-url'', \<lparr>image_pk = ''img-7'', files = []\<rparr>)] []) 2)
     [''scan.mha''] ''out/mask.mha'' start =
     (Inl TimeoutError,
      \<lparr>clock = 5,
       trace =
         [Print (''Uploading to grand-challenge.org to run '' @ quoted ''demo''),
          Call (UploadCases [''scan.mha''] ''demo''),
          Print (''Waiting for image import to finish for algorithm '' @ quoted ''demo''),
          Sleep 30,
          Call (SessionDetail ''s1''), Call (GetUrl ''img-url''),
          Print (''Waiting for results of algorithm '' @ quoted ''demo''),
          Sleep 30,
          Call (JobsPage ''alg-1'' ''img-7''), Sleep (45 / 2),
          Call (JobsPage ''alg-1'' ''img-7'')]\<rparr>)"
  using policy_restarts_on_every_iteration [of _ _
     "driver_of (table_client [] [(0, \<lparr>session_pk = ''s1''\<rparr>)]
        [(1, \<lparr>sd_status = ''Succeeded'', image_set = [''img-url'']\<rparr>)] []
        [(''img-url'', \<lparr>image_pk = ''img-7'', files = []\<rparr>)] []) 2"
     "[''scan.mha'']" "\<lparr>session_pk = ''s1''\<rparr>" 0
     "\<lparr>sd_status = ''Succeeded'', image_set = [''img-url'']\<rparr>" "''img-url''" "[]"
     "\<lparr>image_pk = ''img-7'', files = []\<rparr>" "''out/mask.mha''", where w = start]
  by (simp add: driver_of_def table_client_def at_time_def at_url_def start_def
        ThrottledRetries_init_def backoff_def pending_job_def poll_trace_def upt_conv_Cons
        All_less_Suc eval_nat_numeral)

text \<open>
  C3 as stated fails: the policy of three attempts, iterated again after a complete
  iteration, yields 0, 1, 2 once more.
\<close>

theorem policy_restart_counterexample:
  "map fst (fst (consume (iter_retries (ThrottledRetries_init 3 15)) start)) = [0, 1, 2] \<and>
   map fst (fst (consume (iter_retries (ThrottledRetries_init 3 15))
                   (snd (consume (iter_retries (ThrottledRetries_init 3 15)) start)))) =
     [0, 1, 2]"
  by (simp add: consume_indices ThrottledRetries_init_def upt_conv_Cons)

section \<open>Construction\<close>




end
